theory Spec2Isabelle
  imports Main "HOL-Library.AList" "HOL-Library.Char_ord" "HOL-Library.List_Lexorder"
    "HOL-Library.Product_Lexorder"
begin

section \<open>vgit/git.py: the git status sheet of VisiData\<close>

text \<open>
  A shallow embedding of \<^verbatim>\<open>src/vgit/git.py\<close>. A Python \<^verbatim>\<open>str\<close> is a \<^typ>\<open>string\<close>; a
  \<^typ>\<open>char\<close> stands for a code point below 256. A dictionary that is only looked up is a
  map, one that is iterated is an association list in insertion order. An exception is a
  value of \<open>exn\<close>; a function that can raise returns it beside the state it has reached,
  since the state a raise leaves behind stays on the sheet.
\<close>

subsection \<open>Python strings\<close>

text \<open>\<^verbatim>\<open>sep.join(xs)\<close>.\<close>

fun join :: "string \<Rightarrow> string list \<Rightarrow> string" where
  "join sep [] = []"
| "join sep [x] = x"
| "join sep (x # y # ys) = x @ sep @ join sep (y # ys)"

text \<open>\<^verbatim>\<open>data.find(sep)\<close> for a one-character \<^verbatim>\<open>sep\<close>: the index of the first
  occurrence, \<open>None\<close> for Python's \<open>-1\<close>.\<close>

fun find_char :: "char \<Rightarrow> string \<Rightarrow> nat option" where
  "find_char c [] = None"
| "find_char c (x # xs) = (if x = c then Some 0 else map_option Suc (find_char c xs))"

text \<open>\<^verbatim>\<open>s.split(sep)\<close> for a one-character \<^verbatim>\<open>sep\<close>: the pieces between the
  separators, never an empty list.\<close>

fun split_char :: "char \<Rightarrow> string \<Rightarrow> string list" where
  "split_char c [] = [[]]"
| "split_char c (x # xs) =
     (if x = c then [] # split_char c xs
      else (x # hd (split_char c xs)) # tl (split_char c xs))"

subsection \<open>Running git\<close>

text \<open>
  What one run of \<^verbatim>\<open>sh.git(..., _iter=True, _err=err)\<close> gives its caller: the blocks of
  standard output the iteration yields, in order (\<^verbatim>\<open>_out_bufsize\<close> only decides where
  the blocks are cut), the lines written to \<^verbatim>\<open>err\<close>, and the exit code. With a
  non-zero exit code the iteration raises \<^verbatim>\<open>sh.ErrorReturnCode\<close> once the blocks are
  used up. \<open>cmd_args\<close> are the arguments, for the messages.
\<close>

record cmd_run =
  cmd_args :: "string list"
  out_blocks :: "string list"
  err_lines :: "string list"
  exit_code :: int

text \<open>
  What reaches the user out of band: \<^verbatim>\<open>status(*args)\<close>, \<^verbatim>\<open>error(*args)\<close> and
  \<^verbatim>\<open>vd.push(TextSheet(name, lines))\<close>. The exit code of \<^verbatim>\<open>'error=%s' % e.exit_code\<close>
  is kept as a number.
\<close>

datatype report =
  Status "string list"
| StatusExit string int
| ErrorExit string int
| PushTextSheet string "string list"

datatype exn = ExpectedException | ValueError

definition cmdstr :: "string list \<Rightarrow> string" where
  "cmdstr args = ''git '' @ join '' '' args"

text \<open>The stderr lines: one \<^verbatim>\<open>status\<close> each when there are fewer than three, else one
  sheet (lines 93-98 and 106-111).\<close>

definition report_errlines :: "string list \<Rightarrow> string list \<Rightarrow> report list" where
  "report_errlines args errlines =
     (if length errlines < 3 then map (\<lambda>line. Status [line]) errlines
      else [PushTextSheet (cmdstr args) errlines])"

subsection \<open>git_iter\<close>

lemma find_char_less: "find_char c s = Some i \<Longrightarrow> i < length s"
  by (induction s arbitrary: i) (auto split: if_splits)

text \<open>
  The \<^verbatim>\<open>while True\<close> loop of lines 82-89 and the \<^verbatim>\<open>chunks.append(data)\<close> of line 91,
  for one block \<open>data\<close>: the chunks yielded, and the list \<open>chunks\<close> afterwards.
\<close>

function iter_data :: "char \<Rightarrow> string \<Rightarrow> string list \<Rightarrow> string list \<times> string list" where
  "iter_data sep data chunks =
     (case find_char sep data of
        None \<Rightarrow> ([], chunks @ [data])
      | Some i \<Rightarrow>
          (case iter_data sep (drop (i + 1) data) [] of
             (ys, chunks') \<Rightarrow> (join [] (chunks @ [take i data]) # ys, chunks')))"
  by pat_completeness auto
termination
  by (relation "measure (\<lambda>(sep, data, chunks). length data)") (auto dest: find_char_less)

text \<open>The \<^verbatim>\<open>for data in git(...)\<close> loop over the blocks.\<close>

fun iter_blocks :: "char \<Rightarrow> string list \<Rightarrow> string list \<Rightarrow> string list \<times> string list" where
  "iter_blocks sep [] chunks = ([], chunks)"
| "iter_blocks sep (data # rest) chunks =
     (case iter_data sep data chunks of
        (ys, chunks') \<Rightarrow>
          (case iter_blocks sep rest chunks' of (zs, chunks'') \<Rightarrow> (ys @ zs, chunks'')))"

text \<open>
  Modelled from the spec: \<^verbatim>\<open>status\<close> and \<^verbatim>\<open>error\<close> are VisiData's own
  (\<^verbatim>\<open>from visidata import *\<close>), not in \<^verbatim>\<open>src/\<close>. For the spec's stream chunker a failed
  command makes the sequence end "after yielding all chunks obtainable before the error",
  the error being "reported to the caller as a side channel, not inline in the chunk
  sequence". \<^verbatim>\<open>status\<close> puts its arguments on the status line and returns; \<^verbatim>\<open>error\<close> puts
  them there and raises \<^verbatim>\<open>ExpectedException\<close> to the caller. That is why lines 93-98
  report the stderr lines before the call, as lines 106-111 do on the way that does not
  raise, and why \<^verbatim>\<open>git_all\<close> and \<^verbatim>\<open>git_lines\<close>, which go on after a failure, call
  \<^verbatim>\<open>status\<close> instead.

  \<^verbatim>\<open>git_iter\<close> is a generator; its model gives the chunks it yields, the reports it makes
  once the blocks are used up, and the exception it then raises, if any. After a non-zero
  exit code lines 102-111 are not reached, so the text after the last separator is not
  yielded. The log of commands that \<^verbatim>\<open>loggit\<close> keeps is not part of the model.
\<close>

definition git_iter :: "char \<Rightarrow> cmd_run \<Rightarrow> string list \<times> report list \<times> exn option" where
  "git_iter sep run =
     (case iter_blocks sep (out_blocks run) [] of
        (ys, chunks) \<Rightarrow>
          if exit_code run \<noteq> 0
          then (ys,
                report_errlines (cmd_args run) (err_lines run)
                  @ [ErrorExit (cmdstr (cmd_args run)) (exit_code run)],
                Some ExpectedException)
          else (let r = join [] chunks in
                (ys @ (if r \<noteq> [] then [r] else []),
                 report_errlines (cmd_args run) (err_lines run),
                 None)))"

text \<open>
  \<^verbatim>\<open>git_lines\<close> yields each line without its last character. A non-zero exit code is
  reported with \<^verbatim>\<open>status\<close> and nothing is raised; the stderr lines follow.
\<close>

definition git_lines :: "cmd_run \<Rightarrow> string list \<times> report list" where
  "git_lines run =
     (map butlast (out_blocks run),
      (if exit_code run \<noteq> 0 then [StatusExit (cmdstr (cmd_args run)) (exit_code run)] else [])
        @ (if length (err_lines run) < 3
           then map (\<lambda>line. Status [''stderr: '' @ line]) (err_lines run)
           else [PushTextSheet (cmdstr (cmd_args run)) (err_lines run)]))"

text \<open>\<^verbatim>\<open>git_all\<close> returns the whole output, also after a non-zero exit code, which it
  reports with \<^verbatim>\<open>status\<close>.\<close>

definition git_all :: "cmd_run \<Rightarrow> string \<times> report list" where
  "git_all run =
     (concat (out_blocks run),
      if exit_code run \<noteq> 0 then [StatusExit (cmdstr (cmd_args run)) (exit_code run)] else [])"

subsection \<open>The regular expression of getBranchStatuses\<close>

text \<open>
  Python's \<^verbatim>\<open>re\<close> on a \<^verbatim>\<open>str\<close> pattern, for code points below 256: \<^verbatim>\<open>\s\<close> is
  the white space of \<^verbatim>\<open>str.isspace\<close>, \<^verbatim>\<open>\S\<close> its complement, \<^verbatim>\<open>\d\<close> a decimal
  digit, and \<^verbatim>\<open>.\<close> any character but a newline.
\<close>

definition is_space :: "char \<Rightarrow> bool" where
  "is_space c = ((of_char c :: nat) \<in> set [9, 10, 11, 12, 13, 28, 29, 30, 31, 32, 133, 160])"

datatype cclass = Space | NonSpace | Digit | Dot

fun in_class :: "cclass \<Rightarrow> char \<Rightarrow> bool" where
  "in_class Space c = is_space c"
| "in_class NonSpace c = (\<not> is_space c)"
| "in_class Digit c = (CHR ''0'' \<le> c \<and> c \<le> CHR ''9'')"
| "in_class Dot c = (c \<noteq> CHR 0x0A)"

text \<open>
  The patterns that occur: a literal, one character of a class, a greedy \<^verbatim>\<open>*\<close> or
  \<^verbatim>\<open>+\<close> of a class, a greedy \<^verbatim>\<open>?\<close>, a sequence and a numbered group.
\<close>

datatype rx =
  Lit string
| One cclass
| Star cclass
| Plus cclass
| Opt rx
| Seq rx rx
| Group nat rx

text \<open>
  A backtracking matcher: every way \<open>r\<close> matches a prefix of \<open>s\<close>, as the rest of the
  input with the groups captured on the way, in the order in which Python's matcher tries
  them (a greedy repetition tries the longest run first, a greedy \<^verbatim>\<open>?\<close> tries its
  operand before skipping it). The first entry is Python's match.
\<close>

fun rmatch :: "rx \<Rightarrow> string \<Rightarrow> (nat \<rightharpoonup> string) \<Rightarrow> (string \<times> (nat \<rightharpoonup> string)) list" where
  "rmatch (Lit l) s c = (if take (length l) s = l then [(drop (length l) s, c)] else [])"
| "rmatch (One k) s c =
     (case s of [] \<Rightarrow> [] | x # xs \<Rightarrow> if in_class k x then [(xs, c)] else [])"
| "rmatch (Star k) s c =
     map (\<lambda>n. (drop n s, c)) (rev [0..<Suc (length (takeWhile (in_class k) s))])"
| "rmatch (Plus k) s c =
     map (\<lambda>n. (drop n s, c)) (rev [1..<Suc (length (takeWhile (in_class k) s))])"
| "rmatch (Opt r) s c = rmatch r s c @ [(s, c)]"
| "rmatch (Seq r1 r2) s c = concat (map (\<lambda>m. rmatch r2 (fst m) (snd m)) (rmatch r1 s c))"
| "rmatch (Group i r) s c =
     map (\<lambda>m. (fst m, (snd m)(i \<mapsto> take (length s - length (fst m)) s))) (rmatch r s c)"

text \<open>\<^verbatim>\<open>re.search\<close>: the first match at the leftmost position that has one; the result
  is the groups of the match.\<close>

fun re_search :: "rx \<Rightarrow> string \<Rightarrow> (nat \<rightharpoonup> string) option" where
  "re_search r [] = (case rmatch r [] Map.empty of [] \<Rightarrow> None | m # _ \<Rightarrow> Some (snd m))"
| "re_search r (x # xs) =
     (case rmatch r (x # xs) Map.empty of [] \<Rightarrow> re_search r xs | m # _ \<Rightarrow> Some (snd m))"

text \<open>
  The pattern of lines 295-300, read with \<^verbatim>\<open>re.VERBOSE\<close> (white space in the pattern
  is dropped):
  \<^verbatim>\<open>(\S+)\s*(\S+)?\s*(\[(ahead.(\d+)),?\s*(behind.(\d+))?\])?\<close>
\<close>

definition track_rx :: rx where
  "track_rx =
     Seq (Lit ''['')
    (Seq (Group 4 (Seq (Lit ''ahead'') (Seq (One Dot) (Group 5 (Plus Digit)))))
    (Seq (Opt (Lit '',''))
    (Seq (Star Space)
    (Seq (Opt (Group 6 (Seq (Lit ''behind'') (Seq (One Dot) (Group 7 (Plus Digit))))))
         (Lit '']'')))))"

definition branch_status_rx :: rx where
  "branch_status_rx =
     Seq (Group 1 (Plus NonSpace))
    (Seq (Star Space)
    (Seq (Opt (Group 2 (Plus NonSpace)))
    (Seq (Star Space)
         (Opt (Group 3 track_rx)))))"

subsection \<open>getBranchStatuses\<close>

text \<open>Lines 306-313: \<open>r\<close> from \<^verbatim>\<open>nahead\<close> and \<^verbatim>\<open>nbehind\<close>; a group that did not take
  part in the match is \<open>None\<close>, which is false as the empty string is.\<close>

definition branch_delta :: "string option \<Rightarrow> string option \<Rightarrow> string" where
  "branch_delta nahead nbehind =
     (let r = (case nahead of
                 None \<Rightarrow> []
               | Some n \<Rightarrow> if n \<noteq> [] then ''+'' @ n else [])
      in case nbehind of
           None \<Rightarrow> r
         | Some m \<Rightarrow> if m \<noteq> [] then (if r \<noteq> [] then r @ ''/'' else r) @ ''-'' @ m else r)"

text \<open>The body of the loop of line 294 for one line. Group 1 is part of every match.\<close>

definition branch_status_line ::
  "string \<Rightarrow> (string \<rightharpoonup> string) \<times> report list \<Rightarrow> (string \<rightharpoonup> string) \<times> report list" where
  "branch_status_line branch_status acc =
     (case re_search branch_status_rx branch_status of
        None \<Rightarrow> (fst acc, snd acc @ [Status [''unmatched branch status: '' @ branch_status]])
      | Some m \<Rightarrow>
          (case m 1 of
             None \<Rightarrow> acc
           | Some localb \<Rightarrow> ((fst acc)(localb \<mapsto> branch_delta (m 5) (m 7)), snd acc)))"

definition getBranchStatuses :: "cmd_run \<Rightarrow> (string \<rightharpoonup> string) \<times> report list" where
  "getBranchStatuses run =
     (let ret = foldl (\<lambda>acc l. branch_status_line l acc) (Map.empty, []) (fst (git_lines run))
      in (fst ret, snd ret @ snd (git_lines run)))"

subsection \<open>Files, status records and the sheet\<close>

text \<open>
  What a \<^verbatim>\<open>GitFile\<close> reads of its \<^verbatim>\<open>path\<close>: the suffix, and the size and modification
  time, which a path that cannot be stat'ed (a deleted file that git still reports) does
  not have.
\<close>

record Path =
  suffix :: string
  filesize :: "int option"
  mtime :: "int option"

record GitFile =
  path :: Path
  filename :: string
  is_dir :: bool

text \<open>\<^verbatim>\<open>GitFile.__str__\<close>.\<close>

definition str_GitFile :: "GitFile \<Rightarrow> string" where
  "str_GitFile gf = filename gf @ (if is_dir gf then ''/'' else [])"

text \<open>
  \<^verbatim>\<open>FileStatus = namedlist('FileStatus', 'status adds dels')\<close>. \<open>adds\<close> holds the unstaged
  delta (the column \<^verbatim>\<open>unstaged\<close> reads it) and \<open>dels\<close> the staged one (the column
  \<^verbatim>\<open>staged\<close>).
\<close>

record FileStatus =
  status :: string
  adds :: "string option"
  dels :: "string option"

text \<open>
  The state of a \<^verbatim>\<open>GitStatus\<close> sheet that \<^verbatim>\<open>reload\<close> writes, and \<open>reported\<close>: what has
  been put on the status line or pushed as a sheet, in order.
\<close>

record sheet =
  rows :: "GitFile list"
  cachedStatus :: "string \<rightharpoonup> FileStatus"
  branch :: string
  remotediff :: string
  reported :: "report list"

text \<open>
  What \<^verbatim>\<open>reload\<close> reads from outside the sheet: the entries of \<^verbatim>\<open>self.source.iterdir()\<close>
  as \<^verbatim>\<open>GitFile\<close>s (the \<open>filename\<close> of a direct entry is its name), the \<^verbatim>\<open>GitFile\<close>
  that \<^verbatim>\<open>GitFile(self.source.joinpath(fn), self.source)\<close> builds for a path \<open>fn\<close>, the
  option \<^verbatim>\<open>vgit_show_ignored\<close>, and the six runs of git.
\<close>

record world =
  iterdir :: "GitFile list"
  GitFile_at :: "string \<Rightarrow> GitFile"
  vgit_show_ignored :: bool
  run_rev_parse :: cmd_run
  run_for_each_ref :: cmd_run
  run_ls_files :: cmd_run
  run_status :: cmd_run
  run_diff_files :: cmd_run
  run_diff_index :: cmd_run

subsection \<open>statusText, git_status, ignored\<close>

definition vmod :: "char \<rightharpoonup> string" where
  "vmod = [CHR ''A'' \<mapsto> ''add'', CHR ''D'' \<mapsto> ''rm'', CHR ''M'' \<mapsto> ''mod'', CHR ''T'' \<mapsto> ''chmod'',
           CHR ''?'' \<mapsto> ''out'', CHR ''!'' \<mapsto> ''ignored'', CHR ''U'' \<mapsto> ''unmerged'']"

text \<open>\<^verbatim>\<open>vmod.get(x, x)\<close>.\<close>

definition vmod_get :: "char \<Rightarrow> string" where
  "vmod_get x = (case vmod x of Some l \<Rightarrow> l | None \<Rightarrow> [x])"

text \<open>
  \<^verbatim>\<open>st == '??'\<close> on lines 253 and 255 compares the \<^verbatim>\<open>FileStatus\<close> itself with a
  \<^verbatim>\<open>str\<close>, not its field \<^verbatim>\<open>status\<close>. A \<^verbatim>\<open>namedlist\<close> is a list of its fields, and
  Python's \<^verbatim>\<open>==\<close> between a list and a \<^verbatim>\<open>str\<close> is \<^verbatim>\<open>False\<close>.
\<close>

definition FileStatus_eq_str :: "FileStatus \<Rightarrow> string \<Rightarrow> bool" where
  "FileStatus_eq_str st s = False"

text \<open>\<^verbatim>\<open>x, y = st.status\<close> raises \<^verbatim>\<open>ValueError\<close> unless the code has two characters.\<close>

definition statusText :: "FileStatus \<Rightarrow> exn + string" where
  "statusText st =
     (case status st of
        [x, y] \<Rightarrow>
          if FileStatus_eq_str st ''??'' then Inr ''new''
          else if FileStatus_eq_str st ''!!'' then Inr ''ignored''
          else if x \<noteq> CHR '' '' \<and> y = CHR '' '' then Inr (vmod_get x)
          else if y \<noteq> CHR '' '' then Inr (vmod_get y)
          else Inr []
      | _ \<Rightarrow> Inl ValueError)"

text \<open>
  \<^verbatim>\<open>git_status(r)\<close>: \<open>None\<close> for no row; else the cached record, and for a path that has
  none a fresh record, which is also stored (lines 275-278). A \<^verbatim>\<open>GitFile\<close> and a
  \<^verbatim>\<open>FileStatus\<close> are never false.
\<close>

definition git_status :: "GitFile option \<Rightarrow> sheet \<Rightarrow> FileStatus option \<times> sheet" where
  "git_status r s =
     (case r of
        None \<Rightarrow> (None, s)
      | Some gf \<Rightarrow>
          (case cachedStatus s (filename gf) of
             Some ret \<Rightarrow> (Some ret, s)
           | None \<Rightarrow>
               (let ret = \<lparr>status = ''//'', adds = None, dels = None\<rparr>
                in (Some ret, s\<lparr>cachedStatus := (cachedStatus s)(filename gf \<mapsto> ret)\<rparr>))))"

definition ignored :: "world \<Rightarrow> sheet \<Rightarrow> string \<Rightarrow> bool" where
  "ignored w s fn =
     (if vgit_show_ignored w then False
      else (case cachedStatus s fn of
              Some st \<Rightarrow> status st = ''!!''
            | None \<Rightarrow> False))"

subsection \<open>Columns and orderBy\<close>

datatype cell = CNone | CInt int | CStr string | CStatus FileStatus

text \<open>The record \<^verbatim>\<open>git_status(r)\<close> returns for a row, read without storing it.\<close>

definition status_of :: "sheet \<Rightarrow> GitFile \<Rightarrow> FileStatus" where
  "status_of s r =
     (case cachedStatus s (filename r) of
        Some ret \<Rightarrow> ret
      | None \<Rightarrow> \<lparr>status = ''//'', adds = None, dels = None\<rparr>)"

definition cell_of :: "string option \<Rightarrow> cell" where
  "cell_of v = (case v of None \<Rightarrow> CNone | Some x \<Rightarrow> CStr x)"

definition cell_of_int :: "int option \<Rightarrow> cell" where
  "cell_of_int v = (case v of None \<Rightarrow> CNone | Some x \<Rightarrow> CInt x)"

record column =
  col_name :: string
  getter :: "sheet \<Rightarrow> GitFile \<Rightarrow> cell"

text \<open>Lines 231-240, in their order. A getter that raises gives no value (\<open>CNone\<close>).\<close>

definition columns :: "column list" where
  "columns =
     [\<lparr>col_name = ''path'', getter = (\<lambda>s r. CStr (str_GitFile r))\<rparr>,
      \<lparr>col_name = ''status'',
       getter = (\<lambda>s r. case statusText (status_of s r) of Inr t \<Rightarrow> CStr t | Inl e \<Rightarrow> CNone)\<rparr>,
      \<lparr>col_name = ''status_raw'', getter = (\<lambda>s r. CStatus (status_of s r))\<rparr>,
      \<lparr>col_name = ''staged'', getter = (\<lambda>s r. cell_of (dels (status_of s r)))\<rparr>,
      \<lparr>col_name = ''unstaged'', getter = (\<lambda>s r. cell_of (adds (status_of s r)))\<rparr>,
      \<lparr>col_name = ''type'', getter = (\<lambda>s r. CStr (if is_dir r then ''/'' else suffix (path r)))\<rparr>,
      \<lparr>col_name = ''size'', getter = (\<lambda>s r. cell_of_int (filesize (path r)))\<rparr>,
      \<lparr>col_name = ''mtime'', getter = (\<lambda>s r. cell_of_int (mtime (path r)))\<rparr>]"

text \<open>
  The order of the values of a column: a row with no value comes below every value,
  numbers are compared as numbers, strings by code points, and a status record by its
  code.
\<close>

fun cell_key :: "cell \<Rightarrow> nat \<times> int \<times> string" where
  "cell_key CNone = (0, 0, [])"
| "cell_key (CInt i) = (1, i, [])"
| "cell_key (CStr t) = (2, 0, t)"
| "cell_key (CStatus st) = (3, 0, status st)"

text \<open>
  Modelled from the spec: \<^verbatim>\<open>Sheet.orderBy\<close> is VisiData's, not in \<^verbatim>\<open>src/\<close>. For the spec
  \<^verbatim>\<open>orderBy(None, col, reverse=True)\<close> is "sort rows by the column, descending". The sort
  is Python's, which is stable also when reversed.
\<close>

definition orderBy :: "column \<Rightarrow> bool \<Rightarrow> sheet \<Rightarrow> sheet" where
  "orderBy col reverse s =
     s\<lparr>rows :=
         (if reverse then rev (sort_key (\<lambda>r. cell_key (getter col s r)) (rev (rows s)))
          else sort_key (\<lambda>r. cell_key (getter col s r)) (rows s))\<rparr>"

text \<open>
  Modelled from the spec: \<^verbatim>\<open>Sheet.addRow\<close> is VisiData's, not in \<^verbatim>\<open>src/\<close>. For the spec
  it is "materialize a visible row": the row is appended to \<^verbatim>\<open>rows\<close>.
\<close>

definition addRow :: "GitFile \<Rightarrow> sheet \<Rightarrow> sheet" where
  "addRow gf s = s\<lparr>rows := rows s @ [gf]\<rparr>"

subsection \<open>reload\<close>

text \<open>\<^verbatim>\<open>s.strip()\<close>.\<close>

definition strip :: "string \<Rightarrow> string" where
  "strip s = rev (dropWhile is_space (rev (dropWhile is_space s)))"

text \<open>\<^verbatim>\<open>a in b\<close> on two strings: \<open>a\<close> occurs in \<open>b\<close>.\<close>

definition is_substring :: "string \<Rightarrow> string \<Rightarrow> bool" where
  "is_substring a b = list_ex (\<lambda>k. take (length a) (drop k b) = a) [0..<Suc (length b)]"

text \<open>
  Line 320. \<^verbatim>\<open>('.git')\<close> is the string \<^verbatim>\<open>'.git'\<close>, so \<^verbatim>\<open>p.name not in ('.git')\<close>
  leaves out every entry whose name occurs in \<^verbatim>\<open>'.git'\<close>.
\<close>

definition files_of :: "world \<Rightarrow> GitFile list" where
  "files_of w = filter (\<lambda>gf. \<not> is_substring (filename gf) ''.git'') (iterdir w)"

text \<open>Line 322: the dictionary \<^verbatim>\<open>filenames\<close>, in insertion order.\<close>

definition filenames_of :: "GitFile list \<Rightarrow> (string \<times> GitFile) list" where
  "filenames_of files = foldl (\<lambda>d gf. AList.update (filename gf) gf d) [] files"

text \<open>
  A statement of \<^verbatim>\<open>reload\<close> takes the sheet to the sheet it leaves and the exception it
  raises, if any. \<^verbatim>\<open>reload\<close> is an \<^verbatim>\<open>@asyncthread\<close>: an exception ends it there, and the
  sheet stays as the statement left it.
\<close>

type_synonym step = "sheet \<Rightarrow> sheet \<times> exn option"

definition ok :: "sheet \<Rightarrow> sheet \<times> exn option" where
  "ok s = (s, None)"

text \<open>A \<^verbatim>\<open>for\<close> loop: the body for each element in turn, up to the first exception.\<close>

fun for_each :: "('a \<Rightarrow> step) \<Rightarrow> 'a list \<Rightarrow> step" where
  "for_each body [] s = (s, None)"
| "for_each body (x # xs) s =
     (case body x s of
        (s', None) \<Rightarrow> for_each body xs s'
      | (s', Some e) \<Rightarrow> (s', Some e))"

text \<open>
  \<^verbatim>\<open>for chunk in self.git_iter(...)\<close>: the body runs on each chunk as it is yielded; what
  \<^verbatim>\<open>git_iter\<close> reports and raises comes after the last chunk. A body that raises leaves
  the generator where it was.
\<close>

definition for_git_iter :: "cmd_run \<Rightarrow> (string \<Rightarrow> step) \<Rightarrow> step" where
  "for_git_iter run body s =
     (case git_iter (CHR 0x00) run of
        (chunks, reps, raised) \<Rightarrow>
          (case for_each body chunks s of
             (s', None) \<Rightarrow> (s'\<lparr>reported := reported s' @ reps\<rparr>, raised)
           | (s', Some e) \<Rightarrow> (s', Some e)))"

text \<open>Line 323.\<close>

definition set_branch :: "world \<Rightarrow> sheet \<Rightarrow> sheet" where
  "set_branch w s =
     s\<lparr>branch := strip (fst (git_all (run_rev_parse w))),
       reported := reported s @ snd (git_all (run_rev_parse w))\<rparr>"

text \<open>Line 324.\<close>

definition set_remotediff :: "world \<Rightarrow> sheet \<Rightarrow> sheet" where
  "set_remotediff w s =
     s\<lparr>remotediff :=
         (case fst (getBranchStatuses (run_for_each_ref w)) (branch s) of
            Some d \<Rightarrow> d
          | None \<Rightarrow> ''no branch''),
       reported := reported s @ snd (getBranchStatuses (run_for_each_ref w))\<rparr>"

text \<open>Line 329, the body of the loop over \<^verbatim>\<open>ls-files\<close>.\<close>

definition seed_tracked :: "string \<Rightarrow> sheet \<Rightarrow> sheet" where
  "seed_tracked fn s =
     s\<lparr>cachedStatus := (cachedStatus s)(fn \<mapsto> \<lparr>status = ''  '', adds = None, dels = None\<rparr>)\<rparr>"

text \<open>Lines 333-337: the code and the path of a chunk of \<^verbatim>\<open>git status -z\<close>.\<close>

definition parse_status_line :: "string \<Rightarrow> string \<times> string" where
  "parse_status_line status_line =
     (if take 1 (drop 2 status_line) = '' ''
      then (take 2 status_line, drop 3 status_line)
      else (''//'', status_line))"

text \<open>Lines 332-342, the body of the loop over \<^verbatim>\<open>status\<close>.\<close>

definition status_entry :: "world \<Rightarrow> (string \<times> GitFile) list \<Rightarrow> string \<Rightarrow> sheet \<Rightarrow> sheet" where
  "status_entry w filenames status_line s =
     (if status_line = [] then s
      else
        (let st = fst (parse_status_line status_line);
             fn = snd (parse_status_line status_line);
             gf = GitFile_at w fn;
             s' = s\<lparr>cachedStatus :=
                     (cachedStatus s)(filename gf \<mapsto> \<lparr>status = st, adds = None, dels = None\<rparr>)\<rparr>
         in if map_of filenames (filename gf) = None
            then (if \<not> ignored w s' (filename gf) then addRow gf s' else s')
            else s'))"

text \<open>
  Lines 345-350, the body of the loop over \<^verbatim>\<open>diff-files --numstat\<close>. The assignment
  \<^verbatim>\<open>adds, dels, fn = line.split('\t')\<close> raises \<^verbatim>\<open>ValueError\<close> unless there are three
  fields.
\<close>

definition numstat_unstaged :: "string \<Rightarrow> step" where
  "numstat_unstaged line s =
     (if line = [] then (s, None)
      else
        (case split_char (CHR 0x09) line of
           [a, d, fn] \<Rightarrow>
             (let cs = (case cachedStatus s fn of
                          None \<Rightarrow> \<lparr>status = ''##'', adds = None, dels = None\<rparr>
                        | Some cs \<Rightarrow> cs)
              in (s\<lparr>cachedStatus :=
                      (cachedStatus s)(fn \<mapsto> cs\<lparr>adds := Some (''+'' @ a @ ''/-'' @ d)\<rparr>)\<rparr>,
                  None))
         | _ \<Rightarrow> (s, Some ValueError)))"

text \<open>Lines 353-358, the body of the loop over \<^verbatim>\<open>diff-index --cached --numstat\<close>.\<close>

definition numstat_staged :: "string \<Rightarrow> step" where
  "numstat_staged line s =
     (if line = [] then (s, None)
      else
        (case split_char (CHR 0x09) line of
           [a, d, fn] \<Rightarrow>
             (let cs = (case cachedStatus s fn of
                          None \<Rightarrow> \<lparr>status = ''$$'', adds = None, dels = None\<rparr>
                        | Some cs \<Rightarrow> cs)
              in (s\<lparr>cachedStatus :=
                      (cachedStatus s)(fn \<mapsto> cs\<lparr>dels := Some (''+'' @ a @ ''/-'' @ d)\<rparr>)\<rparr>,
                  None))
         | _ \<Rightarrow> (s, Some ValueError)))"

text \<open>Lines 360-362.\<close>

definition add_candidate :: "world \<Rightarrow> string \<times> GitFile \<Rightarrow> sheet \<Rightarrow> sheet" where
  "add_candidate w item s =
     (if \<not> ignored w s (filename (snd item)) then addRow (snd item) s else s)"

definition add_candidates :: "world \<Rightarrow> (string \<times> GitFile) list \<Rightarrow> sheet \<Rightarrow> sheet" where
  "add_candidates w filenames s = foldl (\<lambda>s item. add_candidate w item s) s filenames"

text \<open>
  The statements of \<^verbatim>\<open>reload\<close> that write the sheet, lines 323-364, in order: the four
  statements before the queries, the four loops over a query each, and the two statements
  after them. \<^verbatim>\<open>recalc()\<close> on line 366 erases the caches of the columns, which the model
  does not have.
\<close>

definition begin_steps :: "world \<Rightarrow> step list" where
  "begin_steps w =
     [\<lambda>s. ok (set_branch w s),
      \<lambda>s. ok (set_remotediff w s),
      \<lambda>s. ok (s\<lparr>rows := []\<rparr>),
      \<lambda>s. ok (s\<lparr>cachedStatus := Map.empty\<rparr>)]"

text \<open>The four queries: the run of git and the body of the loop over its chunks.\<close>

definition queries :: "world \<Rightarrow> (cmd_run \<times> (string \<Rightarrow> step)) list" where
  "queries w =
     [(run_ls_files w, \<lambda>fn s. ok (seed_tracked fn s)),
      (run_status w,
       \<lambda>status_line s. ok (status_entry w (filenames_of (files_of w)) status_line s)),
      (run_diff_files w, numstat_unstaged),
      (run_diff_index w, numstat_staged)]"

definition query_steps :: "world \<Rightarrow> step list" where
  "query_steps w = map (\<lambda>q. for_git_iter (fst q) (snd q)) (queries w)"

definition end_steps :: "world \<Rightarrow> step list" where
  "end_steps w =
     [\<lambda>s. ok (add_candidates w (filenames_of (files_of w)) s),
      \<lambda>s. ok (orderBy (last columns) True s)]"

definition reload_steps :: "world \<Rightarrow> step list" where
  "reload_steps w = begin_steps w @ query_steps w @ end_steps w"

text \<open>Running the statements: up to the first exception.\<close>

definition run_steps :: "step list \<Rightarrow> step" where
  "run_steps steps = for_each (\<lambda>f. f) steps"

definition reload :: "world \<Rightarrow> step" where
  "reload w s = run_steps (reload_steps w) s"

text \<open>
  The sheet after each statement that was run. \<^verbatim>\<open>reload\<close> runs in a thread of its own
  while the interface reads \<^verbatim>\<open>rows\<close> and \<^verbatim>\<open>_cachedStatus\<close> of the same sheet object:
  these are the states a reader can meet between two statements.
\<close>

fun trace_steps :: "step list \<Rightarrow> sheet \<Rightarrow> sheet list" where
  "trace_steps [] s = []"
| "trace_steps (f # fs) s =
     (case f s of
        (s', None) \<Rightarrow> s' # trace_steps fs s'
      | (s', Some e) \<Rightarrow> [s'])"

definition reload_trace :: "world \<Rightarrow> sheet \<Rightarrow> sheet list" where
  "reload_trace w s = trace_steps (reload_steps w) s"

subsection \<open>Inputs for the examples\<close>

definition gfile :: "string \<Rightarrow> int option \<Rightarrow> GitFile" where
  "gfile n t = \<lparr>path = \<lparr>suffix = [], filesize = t, mtime = t\<rparr>, filename = n, is_dir = False\<rparr>"

text \<open>A run of git from a sheet on \<^verbatim>\<open>/repo\<close> that writes nothing to stderr; the
  arguments of \<^verbatim>\<open>_git_args()\<close> come first (lines 136-140, 146-153).\<close>

definition mkrun :: "string list \<Rightarrow> string list \<Rightarrow> int \<Rightarrow> cmd_run" where
  "mkrun args blocks code =
     \<lparr>cmd_args = [''--git-dir'', ''/repo/.git'', ''--work-tree'', ''/repo''] @ args,
      out_blocks = blocks, err_lines = [], exit_code = code\<rparr>"

definition empty_sheet :: sheet where
  "empty_sheet = \<lparr>rows = [], cachedStatus = Map.empty, branch = [], remotediff = [], reported = []\<rparr>"

text \<open>A directory with two tracked files, both with staged changes, and a tracked file
  that has been deleted; the entry \<^verbatim>\<open>.git\<close> is left out by line 320.\<close>

definition example_world :: world where
  "example_world =
     \<lparr>iterdir = [gfile ''.git'' (Some 30), gfile ''b.txt'' (Some 10), gfile ''a.txt'' (Some 20)],
      GitFile_at = (\<lambda>fn. gfile fn None),
      vgit_show_ignored = False,
      run_rev_parse = mkrun [''rev-parse'', ''--abbrev-ref'', ''HEAD''] [''main'' @ [CHR 0x0A]] 0,
      run_for_each_ref = mkrun [''for-each-ref'', ''refs/heads''] [] 0,
      run_ls_files = mkrun [''ls-files'', ''-z'']
        [''a.txt'' @ [CHR 0x00] @ ''b.txt'' @ [CHR 0x00] @ ''gone.txt'' @ [CHR 0x00]] 0,
      run_status = mkrun [''status'', ''-z'', ''-unormal'', ''--ignored'']
        ['' D gone.txt'' @ [CHR 0x00] @ ''M  a.txt'' @ [CHR 0x00] @ ''M  b.txt'' @ [CHR 0x00]] 0,
      run_diff_files = mkrun [''diff-files'', ''--numstat'', ''-z'']
        [''0'' @ [CHR 0x09] @ ''4'' @ [CHR 0x09] @ ''gone.txt'' @ [CHR 0x00]] 0,
      run_diff_index = mkrun [''diff-index'', ''--cached'', ''--numstat'', ''-z'', ''HEAD'']
        [''1'' @ [CHR 0x09] @ ''0'' @ [CHR 0x09] @ ''a.txt'' @ [CHR 0x00]
           @ ''5'' @ [CHR 0x09] @ ''0'' @ [CHR 0x09] @ ''b.txt'' @ [CHR 0x00]] 0\<rparr>"

text \<open>The sheet that \<^verbatim>\<open>reload\<close> leaves there.\<close>

definition example_reloaded :: sheet where
  "example_reloaded =
     \<lparr>rows = [gfile ''a.txt'' (Some 20), gfile ''b.txt'' (Some 10), gfile ''gone.txt'' None],
      cachedStatus =
        [''gone.txt'' \<mapsto> \<lparr>status = '' D'', adds = Some ''+0/-4'', dels = None\<rparr>,
         ''a.txt'' \<mapsto> \<lparr>status = ''M '', adds = None, dels = Some ''+1/-0''\<rparr>,
         ''b.txt'' \<mapsto> \<lparr>status = ''M '', adds = None, dels = Some ''+5/-0''\<rparr>],
      branch = ''main'', remotediff = ''no branch'', reported = []\<rparr>"

text \<open>A directory with the file \<^verbatim>\<open>foo.txt\<close>, changed in the index and in the working
  tree; the numstat lines are those of the spec's example.\<close>

definition numstat_world :: world where
  "numstat_world =
     \<lparr>iterdir = [gfile ''.git'' (Some 30), gfile ''foo.txt'' (Some 7)],
      GitFile_at = (\<lambda>fn. gfile fn None),
      vgit_show_ignored = False,
      run_rev_parse = mkrun [''rev-parse'', ''--abbrev-ref'', ''HEAD''] [''main'' @ [CHR 0x0A]] 0,
      run_for_each_ref = mkrun [''for-each-ref'', ''refs/heads''] [] 0,
      run_ls_files = mkrun [''ls-files'', ''-z''] [''foo.txt'' @ [CHR 0x00]] 0,
      run_status = mkrun [''status'', ''-z'', ''-unormal'', ''--ignored'']
        [''MM foo.txt'' @ [CHR 0x00]] 0,
      run_diff_files = mkrun [''diff-files'', ''--numstat'', ''-z'']
        [''3'' @ [CHR 0x09] @ ''1'' @ [CHR 0x09] @ ''foo.txt'' @ [CHR 0x00]] 0,
      run_diff_index = mkrun [''diff-index'', ''--cached'', ''--numstat'', ''-z'', ''HEAD'']
        [''0'' @ [CHR 0x09] @ ''0'' @ [CHR 0x09] @ ''foo.txt'' @ [CHR 0x00]] 0\<rparr>"

text \<open>The same directory when \<^verbatim>\<open>git status\<close> writes its first entry and then exits
  with status 128.\<close>

definition failing_world :: world where
  "failing_world =
     example_world
       \<lparr>run_status :=
          mkrun [''status'', ''-z'', ''-unormal'', ''--ignored''] ['' D gone.txt'' @ [CHR 0x00]] 128\<rparr>"

text \<open>The sheet there when the status query starts, and when the reload has ended.\<close>

definition failing_before :: sheet where
  "failing_before =
     \<lparr>rows = [],
      cachedStatus =
        [''a.txt'' \<mapsto> \<lparr>status = ''  '', adds = None, dels = None\<rparr>,
         ''b.txt'' \<mapsto> \<lparr>status = ''  '', adds = None, dels = None\<rparr>,
         ''gone.txt'' \<mapsto> \<lparr>status = ''  '', adds = None, dels = None\<rparr>],
      branch = ''main'', remotediff = ''no branch'', reported = []\<rparr>"

definition failing_after :: sheet where
  "failing_after =
     \<lparr>rows = [gfile ''gone.txt'' None],
      cachedStatus =
        [''a.txt'' \<mapsto> \<lparr>status = ''  '', adds = None, dels = None\<rparr>,
         ''b.txt'' \<mapsto> \<lparr>status = ''  '', adds = None, dels = None\<rparr>,
         ''gone.txt'' \<mapsto> \<lparr>status = '' D'', adds = None, dels = None\<rparr>],
      branch = ''main'', remotediff = ''no branch'',
      reported =
        [ErrorExit ''git --git-dir /repo/.git --work-tree /repo status -z -unormal --ignored'' 128]\<rparr>"

text \<open>A sheet that an earlier \<^verbatim>\<open>reload\<close> has filled.\<close>

definition old_sheet :: sheet where
  "old_sheet =
     \<lparr>rows = [gfile ''old.txt'' (Some 1)],
      cachedStatus = [''old.txt'' \<mapsto> \<lparr>status = ''  '', adds = None, dels = None\<rparr>],
      branch = ''main'', remotediff = [], reported = []\<rparr>"

text \<open>What a reader sees of a sheet in the example: the names of the rows, and the codes
  cached for \<^verbatim>\<open>old.txt\<close> and for \<^verbatim>\<open>a.txt\<close>.\<close>

definition seen :: "sheet \<Rightarrow> string list \<times> string option \<times> string option" where
  "seen t =
     (map filename (rows t),
      map_option status (cachedStatus t ''old.txt''),
      map_option status (cachedStatus t ''a.txt''))"

subsection \<open>Predicates of the properties\<close>

text \<open>What a sheet keeps of an earlier one: every path with a record still has one, and
  the rows are still there, in front.\<close>

definition keeps :: "sheet \<Rightarrow> sheet \<Rightarrow> bool" where
  "keeps s t \<longleftrightarrow>
     dom (cachedStatus s) \<subseteq> dom (cachedStatus t) \<and> take (length (rows s)) (rows t) = rows s"

text \<open>The rows of a sheet are in descending order of a column.\<close>

definition ordered_desc :: "column \<Rightarrow> sheet \<Rightarrow> bool" where
  "ordered_desc col s \<longleftrightarrow>
     sorted_wrt (\<lambda>r r'. cell_key (getter col s r') \<le> cell_key (getter col s r)) (rows s)"




section \<open>Properties\<close>

subsection \<open>Splitting and joining\<close>

lemma join_nil: "join [] xs = concat xs"
  by (induction xs rule: induct_list012) auto

lemma split_char_not_Nil [simp]: "split_char c s \<noteq> []"
  by (induction s) auto

lemma join_split_char: "join [c] (split_char c s) = s"
proof (induction s)
  case Nil
  then show ?case by simp
next
  case (Cons x xs)
  obtain p ps where ps: "split_char c xs = p # ps"
    by (cases "split_char c xs") auto
  with Cons show ?case by (cases ps) auto
qed

lemma split_char_no_sep: "c \<notin> set a \<Longrightarrow> split_char c a = [a]"
  by (induction a) auto

lemma split_char_append:
  "c \<notin> set a \<Longrightarrow> split_char c (a @ c # b) = a # split_char c b"
  by (induction a) auto

lemma split_char_app:
  "split_char c (a @ b) = butlast (split_char c a) @ split_char c (last (split_char c a) @ b)"
proof (induction a)
  case Nil
  then show ?case by simp
next
  case (Cons x xs)
  obtain p ps where ps: "split_char c xs = p # ps"
    by (cases "split_char c xs") auto
  show ?case
  proof (cases ps)
    case Nil
    with Cons ps show ?thesis by auto
  next
    case (Cons q qs)
    with Cons.IH ps show ?thesis by auto
  qed
qed

lemma last_split_char_no_sep: "c \<notin> set (last (split_char c s))"
proof (induction s)
  case Nil
  then show ?case by simp
next
  case (Cons x xs)
  obtain p ps where "split_char c xs = p # ps"
    by (cases "split_char c xs") auto
  with Cons show ?case by auto
qed

lemma last_split_char_Nil: "last (split_char c s) = [] \<longleftrightarrow> s = [] \<or> last s = c"
proof (cases s rule: rev_cases)
  case Nil
  then show ?thesis by simp
next
  case (snoc a l)
  have "split_char c (a @ [l])
          = butlast (split_char c a) @ split_char c (last (split_char c a) @ [l])"
    by (rule split_char_app)
  moreover have "split_char c (last (split_char c a) @ [l])
          = (if l = c then [last (split_char c a), []] else [last (split_char c a) @ [l]])"
    using split_char_append[OF last_split_char_no_sep, of c a "[]"]
      split_char_no_sep[of c "last (split_char c a) @ [l]"] last_split_char_no_sep[of c a]
    by auto
  ultimately show ?thesis using snoc by auto
qed

lemma join_snoc: "ps \<noteq> [] \<Longrightarrow> join sep (ps @ [q]) = join sep ps @ sep @ q"
  by (induction ps rule: induct_list012) auto

lemma join_butlast:
  assumes "ps \<noteq> []" and "last ps = []"
  shows "join [c] (butlast ps) = butlast (join [c] ps)"
proof (cases "butlast ps = []")
  case True
  with assms have "ps = [[]]" by (metis append_butlast_last_id append_Nil)
  then show ?thesis by simp
next
  case False
  from assms have "ps = butlast ps @ [[]]" by (metis append_butlast_last_id)
  then have "join [c] ps = join [c] (butlast ps) @ [c] @ []"
    using join_snoc[OF False, of "[c]" "[]"] by simp
  then show ?thesis by (simp add: butlast_append)
qed

lemma join_complete_chunks:
  "join [c] (if last (split_char c s) = [] then butlast (split_char c s) else split_char c s)
     = (if s \<noteq> [] \<and> last s = c then butlast s else s)"
proof (cases "last (split_char c s) = []")
  case True
  then have "join [c] (butlast (split_char c s)) = butlast s"
    by (simp add: join_butlast join_split_char)
  moreover from True have "s = [] \<or> last s = c" by (simp add: last_split_char_Nil)
  ultimately show ?thesis using True by (cases "s = []") simp_all
next
  case False
  then have "\<not> (s = [] \<or> last s = c)" by (simp add: last_split_char_Nil)
  with False show ?thesis by (simp add: join_split_char)
qed

subsection \<open>The chunks of git_iter\<close>

lemma find_char_None: "find_char c s = None \<longleftrightarrow> c \<notin> set s"
  by (induction s) auto

lemma find_char_Some:
  "find_char c s = Some i \<Longrightarrow> s = take i s @ c # drop (Suc i) s \<and> c \<notin> set (take i s)"
  by (induction s arbitrary: i) (auto split: if_splits)

text \<open>The loop invariant: \<open>chunks\<close> holds the text since the last separator.\<close>

lemma iter_data_split:
  "sep \<notin> set (concat chunks) \<Longrightarrow> iter_data sep data chunks = (ys, chunks') \<Longrightarrow>
   split_char sep (concat chunks @ data) = ys @ [concat chunks'] \<and> sep \<notin> set (concat chunks')"
proof (induction sep data chunks arbitrary: ys chunks' rule: iter_data.induct)
  case (1 sep data chunks)
  show ?case
  proof (cases "find_char sep data")
    case None
    then have "sep \<notin> set data" by (simp add: find_char_None)
    with 1(2,3) None show ?thesis
      by (auto simp: split_char_no_sep)
  next
    case (Some i)
    obtain zs cs where rec: "iter_data sep (drop (i + 1) data) [] = (zs, cs)"
      by (cases "iter_data sep (drop (i + 1) data) []")
    from "1.IH"[OF Some _ rec] have ih:
      "split_char sep (drop (i + 1) data) = zs @ [concat cs] \<and> sep \<notin> set (concat cs)"
      by simp
    from find_char_Some[OF Some] have d: "data = take i data @ sep # drop (Suc i) data"
      and ns: "sep \<notin> set (take i data)" by auto
    from 1(3) Some rec have ys: "ys = concat (chunks @ [take i data]) # zs" and cs: "chunks' = cs"
      by (auto simp: join_nil)
    have "split_char sep (concat chunks @ data)
            = split_char sep ((concat chunks @ take i data) @ sep # drop (Suc i) data)"
      using d by (metis append.assoc)
    also have "\<dots> = (concat chunks @ take i data) # split_char sep (drop (Suc i) data)"
      using 1(2) ns by (intro split_char_append) auto
    finally show ?thesis using ih ys cs by simp
  qed
qed

lemma iter_blocks_split:
  "sep \<notin> set (concat chunks) \<Longrightarrow> iter_blocks sep blocks chunks = (ys, chunks') \<Longrightarrow>
   split_char sep (concat chunks @ concat blocks) = ys @ [concat chunks'] \<and> sep \<notin> set (concat chunks')"
proof (induction blocks arbitrary: chunks ys chunks')
  case Nil
  then show ?case by (simp add: split_char_no_sep)
next
  case (Cons data rest)
  obtain y1 c1 where d: "iter_data sep data chunks = (y1, c1)"
    by (cases "iter_data sep data chunks")
  obtain y2 c2 where r: "iter_blocks sep rest c1 = (y2, c2)"
    by (cases "iter_blocks sep rest c1")
  from iter_data_split[OF Cons.prems(1) d]
  have s1: "split_char sep (concat chunks @ data) = y1 @ [concat c1]" and n1: "sep \<notin> set (concat c1)"
    by auto
  from Cons.IH[OF n1 r]
  have s2: "split_char sep (concat c1 @ concat rest) = y2 @ [concat c2]" and n2: "sep \<notin> set (concat c2)"
    by auto
  from Cons.prems(2) d r have ys: "ys = y1 @ y2" and cs: "chunks' = c2" by auto
  have "split_char sep (concat chunks @ concat (data # rest))
          = split_char sep ((concat chunks @ data) @ concat rest)" by simp
  also have "\<dots> = butlast (split_char sep (concat chunks @ data))
          @ split_char sep (last (split_char sep (concat chunks @ data)) @ concat rest)"
    by (rule split_char_app)
  also have "\<dots> = y1 @ y2 @ [concat c2]" using s1 s2 by simp
  finally show ?case using ys cs n2 by simp
qed

text \<open>After exit code 0 the chunks are the pieces of the output, but for an empty last
  piece; after any other exit code the last piece is never yielded.\<close>

lemma git_iter_chunks_ok:
  assumes "exit_code run = 0"
  shows "fst (git_iter sep run) =
           (if last (split_char sep (concat (out_blocks run))) = []
            then butlast (split_char sep (concat (out_blocks run)))
            else split_char sep (concat (out_blocks run)))"
proof -
  obtain ys chunks where it: "iter_blocks sep (out_blocks run) [] = (ys, chunks)"
    by (cases "iter_blocks sep (out_blocks run) []")
  from iter_blocks_split[OF _ it]
  have sp: "split_char sep (concat (out_blocks run)) = ys @ [concat chunks]"
    by simp
  have "fst (git_iter sep run) = ys @ (if concat chunks \<noteq> [] then [concat chunks] else [])"
    using assms it by (simp add: git_iter_def join_nil Let_def)
  then show ?thesis using sp by simp
qed

lemma git_iter_chunks_failed:
  assumes "exit_code run \<noteq> 0"
  shows "fst (git_iter sep run) = butlast (split_char sep (concat (out_blocks run)))"
proof -
  obtain ys chunks where it: "iter_blocks sep (out_blocks run) [] = (ys, chunks)"
    by (cases "iter_blocks sep (out_blocks run) []")
  from iter_blocks_split[OF _ it]
  have sp: "split_char sep (concat (out_blocks run)) = ys @ [concat chunks]"
    by simp
  have "fst (git_iter sep run) = ys"
    using assms it by (simp add: git_iter_def)
  then show ?thesis using sp by simp
qed

text \<open>
  Claim C3, amended. When the command exits with status 0, the chunks \<^verbatim>\<open>git_iter\<close>
  yields are the separator-delimited pieces of the stream, the text after the last
  separator being the final chunk when it is not empty; joined with the separator they
  give the stream back without its final separator, if it ends in one.
\<close>

theorem git_iter_join:
  assumes "exit_code run = 0"
  shows "fst (git_iter sep run) =
           (if last (split_char sep (concat (out_blocks run))) = []
            then butlast (split_char sep (concat (out_blocks run)))
            else split_char sep (concat (out_blocks run)))
         \<and> join [sep] (fst (git_iter sep run)) =
           (if concat (out_blocks run) \<noteq> [] \<and> last (concat (out_blocks run)) = sep
            then butlast (concat (out_blocks run)) else concat (out_blocks run))"
  using git_iter_chunks_ok[OF assms, of sep] join_complete_chunks[of sep "concat (out_blocks run)"]
  by (simp only:)

text \<open>A stream cut into two blocks inside a chunk, with text after the last separator.\<close>

theorem git_iter_join_witness:
  "exit_code (mkrun [''ls-files'', ''-z''] [''a.t'', ''xt'' @ [CHR 0x00] @ ''b''] 0) = 0
   \<and> fst (git_iter (CHR 0x00) (mkrun [''ls-files'', ''-z''] [''a.t'', ''xt'' @ [CHR 0x00] @ ''b''] 0))
       = [''a.txt'', ''b'']
   \<and> join [CHR 0x00]
        (fst (git_iter (CHR 0x00) (mkrun [''ls-files'', ''-z''] [''a.t'', ''xt'' @ [CHR 0x00] @ ''b''] 0)))
       = ''a.txt'' @ [CHR 0x00] @ ''b''"
proof -
  have h: "exit_code (mkrun [''ls-files'', ''-z''] [''a.t'', ''xt'' @ [CHR 0x00] @ ''b''] 0) = 0"
    by (simp add: mkrun_def)
  show ?thesis
    using h git_iter_join[OF h, of "CHR 0x00"] by (simp add: mkrun_def)
qed

text \<open>
  The claim as stated fails on a stream that ends with the separator, as the output of
  \<^verbatim>\<open>git ls-files -z\<close> does: the chunks of \<^verbatim>\<open>a\0b\0\<close> joined with NUL are \<^verbatim>\<open>a\0b\<close>.
  The streams \<^verbatim>\<open>a\0b\0\<close> and \<^verbatim>\<open>a\0b\<close> give the same chunks.
\<close>

theorem git_iter_join_counterexample:
  "join [CHR 0x00]
     (fst (git_iter (CHR 0x00) (mkrun [''ls-files'', ''-z''] [''a'' @ [CHR 0x00] @ ''b'' @ [CHR 0x00]] 0)))
     \<noteq> concat (out_blocks (mkrun [''ls-files'', ''-z''] [''a'' @ [CHR 0x00] @ ''b'' @ [CHR 0x00]] 0))
   \<and> fst (git_iter (CHR 0x00) (mkrun [''ls-files'', ''-z''] [''a'' @ [CHR 0x00] @ ''b'' @ [CHR 0x00]] 0))
       = fst (git_iter (CHR 0x00) (mkrun [''ls-files'', ''-z''] [''a'' @ [CHR 0x00] @ ''b''] 0))"
  by (simp add: git_iter_def mkrun_def)

subsection \<open>statusText\<close>

text \<open>
  Claim C5, amended. For a two-character status code other than \<^verbatim>\<open>??\<close>, \<^verbatim>\<open>statusText\<close>
  gives \<^verbatim>\<open>ignored\<close> for \<^verbatim>\<open>!!\<close>; else, when the staged character is not blank and the
  working character is blank, the label of the staged character; else, when the working
  character is not blank, the label of that character; else the empty string. The label of
  a character is \<^verbatim>\<open>add\<close> for A, \<^verbatim>\<open>rm\<close> for D, \<^verbatim>\<open>mod\<close> for M, \<^verbatim>\<open>chmod\<close> for T, \<^verbatim>\<open>out\<close>
  for ?, \<^verbatim>\<open>ignored\<close> for !, \<^verbatim>\<open>unmerged\<close> for U, and the character itself otherwise.
\<close>

theorem statusText_label:
  assumes "status st = [x, y]" and "status st \<noteq> ''??''"
  shows "statusText st =
           Inr (if status st = ''!!'' then ''ignored''
                else if x \<noteq> CHR '' '' \<and> y = CHR '' '' then vmod_get x
                else if y \<noteq> CHR '' '' then vmod_get y
                else [])
         \<and> vmod_get c =
           (if c = CHR ''A'' then ''add'' else if c = CHR ''D'' then ''rm''
            else if c = CHR ''M'' then ''mod'' else if c = CHR ''T'' then ''chmod''
            else if c = CHR ''?'' then ''out'' else if c = CHR ''!'' then ''ignored''
            else if c = CHR ''U'' then ''unmerged'' else [c])"
  using assms by (auto simp: statusText_def FileStatus_eq_str_def vmod_get_def vmod_def)

theorem statusText_label_witness:
  "statusText \<lparr>status = ''M '', adds = None, dels = Some ''+1/-0''\<rparr> = Inr ''mod''
   \<and> statusText \<lparr>status = '' D'', adds = None, dels = None\<rparr> = Inr ''rm''
   \<and> statusText \<lparr>status = ''!!'', adds = None, dels = None\<rparr> = Inr ''ignored''
   \<and> statusText \<lparr>status = ''  '', adds = None, dels = None\<rparr> = Inr []"
  using statusText_label[of "\<lparr>status = ''M '', adds = None, dels = Some ''+1/-0''\<rparr>"
      "CHR ''M''" "CHR '' ''" "CHR ''M''"]
    statusText_label[of "\<lparr>status = '' D'', adds = None, dels = None\<rparr>"
      "CHR '' ''" "CHR ''D''" "CHR ''D''"]
    statusText_label[of "\<lparr>status = ''!!'', adds = None, dels = None\<rparr>"
      "CHR ''!''" "CHR ''!''" "CHR ''!''"]
    statusText_label[of "\<lparr>status = ''  '', adds = None, dels = None\<rparr>"
      "CHR '' ''" "CHR '' ''" "CHR '' ''"]
  by simp

text \<open>
  The claim as stated fails on the code \<^verbatim>\<open>UU\<close> (both sides unmerged): the label is
  \<^verbatim>\<open>unmerged\<close>, not the character \<^verbatim>\<open>U\<close>. It also fails on \<^verbatim>\<open>??\<close>, where the
  comparison of line 253 is never true and the label is \<^verbatim>\<open>out\<close>, not \<^verbatim>\<open>new\<close>.
\<close>

theorem statusText_counterexample:
  "statusText \<lparr>status = ''UU'', adds = None, dels = None\<rparr> = Inr ''unmerged''
   \<and> statusText \<lparr>status = ''??'', adds = None, dels = None\<rparr> = Inr ''out''"
  by (simp add: statusText_def FileStatus_eq_str_def vmod_get_def vmod_def)

subsection \<open>git_status\<close>

text \<open>
  Claim C10. For a row whose path has no record in the cache, \<^verbatim>\<open>git_status\<close> returns a
  fresh record with code \<^verbatim>\<open>//\<close> and no deltas, and stores it in the cache; a second call
  finds that record, and the path is not ignored.
\<close>

theorem git_status_unknown_path:
  assumes "cachedStatus s (filename gf) = None"
  shows "git_status (Some gf) s =
           (Some \<lparr>status = ''//'', adds = None, dels = None\<rparr>,
            s\<lparr>cachedStatus :=
                (cachedStatus s)(filename gf \<mapsto> \<lparr>status = ''//'', adds = None, dels = None\<rparr>)\<rparr>)
         \<and> git_status (Some gf) (snd (git_status (Some gf) s)) =
             (Some \<lparr>status = ''//'', adds = None, dels = None\<rparr>, snd (git_status (Some gf) s))
         \<and> ignored w (snd (git_status (Some gf) s)) (filename gf) = False"
  using assms by (simp add: git_status_def ignored_def Let_def)

theorem git_status_unknown_path_witness:
  "cachedStatus empty_sheet (filename (gfile ''new.txt'' None)) = None
   \<and> git_status (Some (gfile ''new.txt'' None)) empty_sheet =
       (Some \<lparr>status = ''//'', adds = None, dels = None\<rparr>,
        empty_sheet\<lparr>cachedStatus := [''new.txt'' \<mapsto> \<lparr>status = ''//'', adds = None, dels = None\<rparr>]\<rparr>)
   \<and> cachedStatus (snd (git_status (Some (gfile ''new.txt'' None)) empty_sheet)) ''new.txt''
       = Some \<lparr>status = ''//'', adds = None, dels = None\<rparr>"
proof -
  have h: "cachedStatus empty_sheet (filename (gfile ''new.txt'' None)) = None"
    by (simp add: empty_sheet_def)
  show ?thesis
    using h git_status_unknown_path[OF h] by (simp add: gfile_def empty_sheet_def)
qed

subsection \<open>The loops of reload\<close>

lemma for_each_ok: "for_each (\<lambda>x s. ok (f x s)) xs s = (foldl (\<lambda>s x. f x s) s xs, None)"
  by (induction xs arbitrary: s) (auto simp: ok_def)

lemma third_char: "take 1 (drop 2 l) = (if 2 < length l then [l ! 2] else [])"
proof (cases "2 < length l")
  case True
  then have "drop 2 l = l ! 2 # drop 3 l"
    using Cons_nth_drop_Suc[of 2 l] by (simp add: numeral_3_eq_3 numeral_2_eq_2)
  with True show ?thesis by simp
next
  case False
  then show ?thesis by simp
qed

text \<open>
  Claim C9. A non-empty chunk of the status query whose third character is not a space
  (or that has none) is taken whole as the path; the record cached for it has the code
  \<^verbatim>\<open>//\<close>; a row is added for it when it is no candidate; and the loop over the chunks
  goes on to the end without an exception, whatever chunks come before and after.
\<close>

theorem malformed_status_chunk:
  assumes "status_line \<noteq> []"
      and "length status_line \<le> 2 \<or> status_line ! 2 \<noteq> CHR '' ''"
  shows "parse_status_line status_line = (''//'', status_line)
         \<and> cachedStatus (status_entry w fns status_line s) (filename (GitFile_at w status_line))
             = Some \<lparr>status = ''//'', adds = None, dels = None\<rparr>
         \<and> rows (status_entry w fns status_line s)
             = (if map_of fns (filename (GitFile_at w status_line)) = None
                then rows s @ [GitFile_at w status_line] else rows s)
         \<and> for_each (\<lambda>l s. ok (status_entry w fns l s)) (before @ status_line # rest) s
             = (foldl (\<lambda>s l. status_entry w fns l s)
                  (status_entry w fns status_line (foldl (\<lambda>s l. status_entry w fns l s) s before))
                  rest,
                None)"
proof -
  have "take 1 (drop 2 status_line) \<noteq> '' ''"
    using assms(2) third_char[of status_line] by (auto split: if_splits)
  then have q: "parse_status_line status_line = (''//'', status_line)"
    by (simp add: parse_status_line_def)
  show ?thesis using assms(1) q
    by (simp add: status_entry_def Let_def ignored_def addRow_def for_each_ok)
qed

text \<open>The old path of a rename, which \<^verbatim>\<open>git status -z\<close> writes as a chunk of its own.\<close>

theorem malformed_status_chunk_witness:
  "parse_status_line ''old.txt'' = (''//'', ''old.txt'')
   \<and> cachedStatus
        (status_entry \<lparr>iterdir = [], GitFile_at = (\<lambda>fn. gfile fn None), vgit_show_ignored = False,
           run_rev_parse = mkrun [] [] 0, run_for_each_ref = mkrun [] [] 0,
           run_ls_files = mkrun [] [] 0, run_status = mkrun [] [] 0,
           run_diff_files = mkrun [] [] 0, run_diff_index = mkrun [] [] 0\<rparr>
           [] ''old.txt'' empty_sheet)
        ''old.txt''
       = Some \<lparr>status = ''//'', adds = None, dels = None\<rparr>"
proof -
  have h: "''old.txt'' \<noteq> []" "length ''old.txt'' \<le> 2 \<or> ''old.txt'' ! 2 \<noteq> CHR '' ''"
    by simp_all
  show ?thesis
    using malformed_status_chunk[OF h,
        of "\<lparr>iterdir = [], GitFile_at = (\<lambda>fn. gfile fn None), vgit_show_ignored = False,
           run_rev_parse = mkrun [] [] 0, run_for_each_ref = mkrun [] [] 0,
           run_ls_files = mkrun [] [] 0, run_status = mkrun [] [] 0,
           run_diff_files = mkrun [] [] 0, run_diff_index = mkrun [] [] 0\<rparr>" "[]" empty_sheet]
    by (simp add: gfile_def)
qed




subsection \<open>Running the statements of reload\<close>

lemma for_each_append:
  "for_each body (xs @ ys) s =
     (case for_each body xs s of
        (s', None) \<Rightarrow> for_each body ys s'
      | (s', Some e) \<Rightarrow> (s', Some e))"
proof (induction xs arbitrary: s)
  case Nil
  then show ?case by simp
next
  case (Cons x xs)
  obtain s1 e1 where b: "body x s = (s1, e1)" by (cases "body x s")
  show ?case using Cons[of s1] b by (cases e1) simp_all
qed

lemma run_steps_append:
  "run_steps (fs @ gs) s =
     (case run_steps fs s of
        (s', None) \<Rightarrow> run_steps gs s'
      | (s', Some e) \<Rightarrow> (s', Some e))"
  unfolding run_steps_def by (rule for_each_append)

lemma run_steps_append_ok:
  "run_steps fs s = (s', None) \<Longrightarrow> run_steps (fs @ gs) s = run_steps gs s'"
  by (simp add: run_steps_append)

lemma run_steps_append_None:
  assumes "run_steps (fs @ gs) s = (t, None)"
  shows "\<exists>s'. run_steps fs s = (s', None) \<and> run_steps gs s' = (t, None)"
proof -
  obtain s1 e1 where b: "run_steps fs s = (s1, e1)" by (cases "run_steps fs s")
  show ?thesis using assms b by (cases e1) (simp_all add: run_steps_append)
qed

lemma run_steps_Cons:
  "run_steps (f # fs) s =
     (case f s of (s', None) \<Rightarrow> run_steps fs s' | (s', Some e) \<Rightarrow> (s', Some e))"
  unfolding run_steps_def by simp

lemma run_steps_Nil: "run_steps [] s = (s, None)"
  by (simp add: run_steps_def)


lemma for_git_iter_None:
  assumes "for_git_iter run body s = (t, None)"
  shows "exit_code run = 0
         \<and> (\<exists>s'. for_each body (fst (git_iter (CHR 0x00) run)) s = (s', None)
                  \<and> t = s'\<lparr>reported := reported s' @ fst (snd (git_iter (CHR 0x00) run))\<rparr>)"
proof -
  obtain chunks reps raised where g: "git_iter (CHR 0x00) run = (chunks, reps, raised)"
    by (cases "git_iter (CHR 0x00) run")
  obtain s1 e1 where b: "for_each body chunks s = (s1, e1)" by (cases "for_each body chunks s")
  have r: "raised = None \<Longrightarrow> exit_code run = 0"
    using g by (auto simp: git_iter_def Let_def split: prod.splits if_splits)
  show ?thesis using assms g b r
    by (cases e1) (auto simp: for_git_iter_def)
qed

lemma for_git_iter_failed:
  assumes "exit_code run \<noteq> 0"
  shows "for_git_iter run body s =
           (case for_each body (butlast (split_char (CHR 0x00) (concat (out_blocks run)))) s of
              (s', None) \<Rightarrow>
                (s'\<lparr>reported := reported s' @ report_errlines (cmd_args run) (err_lines run)
                      @ [ErrorExit (cmdstr (cmd_args run)) (exit_code run)]\<rparr>,
                 Some ExpectedException)
            | (s', Some e) \<Rightarrow> (s', Some e))"
proof -
  obtain chunks reps raised where g: "git_iter (CHR 0x00) run = (chunks, reps, raised)"
    by (cases "git_iter (CHR 0x00) run")
  have c: "chunks = butlast (split_char (CHR 0x00) (concat (out_blocks run)))"
    using git_iter_chunks_failed[OF assms, of "CHR 0x00"] g by simp
  have r: "reps = report_errlines (cmd_args run) (err_lines run)
                    @ [ErrorExit (cmdstr (cmd_args run)) (exit_code run)]
           \<and> raised = Some ExpectedException"
    using g assms by (auto simp: git_iter_def split: prod.splits)
  obtain s1 e1 where b: "for_each body chunks s = (s1, e1)" by (cases "for_each body chunks s")
  show ?thesis using g c r b by (cases e1) (auto simp: for_git_iter_def)
qed

lemma for_git_iter_failed_raises:
  assumes "exit_code run \<noteq> 0"
  shows "snd (for_git_iter run body s) \<noteq> None"
proof -
  obtain s1 e1 where b:
    "for_each body (butlast (split_char (CHR 0x00) (concat (out_blocks run)))) s = (s1, e1)"
    by (cases "for_each body (butlast (split_char (CHR 0x00) (concat (out_blocks run)))) s")
  show ?thesis using for_git_iter_failed[OF assms, of body s] b by (cases e1) auto
qed

lemma keeps_refl: "keeps s s"
  by (simp add: keeps_def)

lemma keeps_trans:
  assumes "keeps s t" and "keeps t u"
  shows "keeps s u"
proof -
  have "rows t = rows s @ drop (length (rows s)) (rows t)"
    using assms(1) append_take_drop_id[of "length (rows s)" "rows t"] by (simp add: keeps_def)
  moreover have "rows u = rows t @ drop (length (rows t)) (rows u)"
    using assms(2) append_take_drop_id[of "length (rows t)" "rows u"] by (simp add: keeps_def)
  ultimately have "rows u = rows s @ (drop (length (rows s)) (rows t) @ drop (length (rows t)) (rows u))"
    by (metis append.assoc)
  then have "take (length (rows s)) (rows u) = rows s"
    by (metis append_eq_conv_conj)
  moreover have "dom (cachedStatus s) \<subseteq> dom (cachedStatus u)"
    using assms by (auto simp: keeps_def)
  ultimately show ?thesis by (simp add: keeps_def)
qed

lemma keeps_reported: "keeps s (t\<lparr>reported := r\<rparr>) = keeps s t"
  by (simp add: keeps_def)

lemma for_each_keeps:
  assumes "\<And>x s. keeps s (fst (body x s))"
  shows "keeps s (fst (for_each body xs s))"
proof (induction xs arbitrary: s)
  case Nil
  then show ?case by (simp add: keeps_refl)
next
  case (Cons x xs)
  obtain s1 e1 where b: "body x s = (s1, e1)" by (cases "body x s")
  have k1: "keeps s s1" using assms[of s x] b by simp
  show ?case
  proof (cases e1)
    case None
    with b Cons[of s1] k1 show ?thesis by (auto intro: keeps_trans)
  next
    case (Some e)
    with b k1 show ?thesis by simp
  qed
qed

lemma for_git_iter_keeps:
  assumes "\<And>x s. keeps s (fst (body x s))"
  shows "keeps s (fst (for_git_iter run body s))"
proof -
  obtain chunks reps raised where g: "git_iter (CHR 0x00) run = (chunks, reps, raised)"
    by (cases "git_iter (CHR 0x00) run")
  obtain s1 e1 where b: "for_each body chunks s = (s1, e1)" by (cases "for_each body chunks s")
  have "keeps s s1" using for_each_keeps[of body s chunks, OF assms] b by simp
  then show ?thesis using g b by (cases e1) (auto simp: for_git_iter_def keeps_reported)
qed

lemma seed_tracked_keeps: "keeps s (fst (ok (seed_tracked fn s)))"
  by (auto simp: keeps_def ok_def seed_tracked_def)

lemma status_entry_keeps: "keeps s (fst (ok (status_entry w fns l s)))"
  by (auto simp: keeps_def ok_def status_entry_def Let_def addRow_def)

lemma numstat_unstaged_keeps: "keeps s (fst (numstat_unstaged l s))"
  by (auto simp: keeps_def numstat_unstaged_def Let_def split: list.splits)

lemma numstat_staged_keeps: "keeps s (fst (numstat_staged l s))"
  by (auto simp: keeps_def numstat_staged_def Let_def split: list.splits)

lemma queries_nth:
  "queries w ! 0 = (run_ls_files w, \<lambda>fn s. ok (seed_tracked fn s))"
  "queries w ! 1 = (run_status w,
       \<lambda>status_line s. ok (status_entry w (filenames_of (files_of w)) status_line s))"
  "queries w ! 2 = (run_diff_files w, numstat_unstaged)"
  "queries w ! 3 = (run_diff_index w, numstat_staged)"
  by (simp_all add: queries_def numeral_2_eq_2 numeral_3_eq_3)

lemma query_keeps:
  assumes "k < 4"
  shows "keeps s (fst (for_git_iter (fst (queries w ! k)) (snd (queries w ! k)) s))"
proof -
  from assms consider "k = 0" | "k = 1" | "k = 2" | "k = 3" by arith
  then show ?thesis
  proof cases
    case 1
    then show ?thesis
      by (simp only: queries_nth fst_conv snd_conv) (rule for_git_iter_keeps, rule seed_tracked_keeps)
  next
    case 2
    then show ?thesis
      by (simp only: queries_nth fst_conv snd_conv) (rule for_git_iter_keeps, rule status_entry_keeps)
  next
    case 3
    then show ?thesis
      by (simp only: queries_nth fst_conv snd_conv) (rule for_git_iter_keeps, rule numstat_unstaged_keeps)
  next
    case 4
    then show ?thesis
      by (simp only: queries_nth fst_conv snd_conv) (rule for_git_iter_keeps, rule numstat_staged_keeps)
  qed
qed

lemma length_queries: "length (queries w) = 4"
  by (simp add: queries_def)

lemma length_query_steps: "length (query_steps w) = 4"
  by (simp add: query_steps_def length_queries)

lemma query_steps_nth:
  "k < 4 \<Longrightarrow> query_steps w ! k = for_git_iter (fst (queries w ! k)) (snd (queries w ! k))"
  by (simp add: query_steps_def length_queries)

text \<open>
  Claim C2, amended. When the git command of one of the four queries exits with a non-zero
  status and nothing has raised before, the reload ends in that query's loop with an
  exception: the complete chunks written before are processed, then the stderr lines and
  the error are reported and the exception of \<^verbatim>\<open>error\<close> ends the reload; the queries
  and statements after it are not run. The sheet keeps the records and rows it had when
  the query started.
\<close>

theorem reload_stops_at_failed_query:
  assumes "k < 4"
      and "exit_code (fst (queries w ! k)) \<noteq> 0"
      and "run_steps (begin_steps w @ take k (query_steps w)) s0 = (s, None)"
  shows "reload w s0 = for_git_iter (fst (queries w ! k)) (snd (queries w ! k)) s
         \<and> snd (reload w s0) \<noteq> None
         \<and> for_git_iter (fst (queries w ! k)) (snd (queries w ! k)) s =
             (case for_each (snd (queries w ! k))
                     (butlast (split_char (CHR 0x00) (concat (out_blocks (fst (queries w ! k)))))) s of
                (s', None) \<Rightarrow>
                  (s'\<lparr>reported := reported s'
                        @ report_errlines (cmd_args (fst (queries w ! k))) (err_lines (fst (queries w ! k)))
                        @ [ErrorExit (cmdstr (cmd_args (fst (queries w ! k))))
                             (exit_code (fst (queries w ! k)))]\<rparr>,
                   Some ExpectedException)
              | (s', Some e) \<Rightarrow> (s', Some e))
         \<and> keeps s (fst (reload w s0))"
proof -
  let ?q = "for_git_iter (fst (queries w ! k)) (snd (queries w ! k))"
  have split: "reload_steps w =
      (begin_steps w @ take k (query_steps w)) @ [?q] @ (drop (Suc k) (query_steps w) @ end_steps w)"
    using assms(1) id_take_nth_drop[of k "query_steps w"]
    by (simp add: reload_steps_def length_query_steps query_steps_nth)
  obtain t e where q: "?q s = (t, e)" by (cases "?q s")
  have e: "e \<noteq> None" using for_git_iter_failed_raises[OF assms(2), of "snd (queries w ! k)" s] q by simp
  then obtain x where x: "e = Some x" by auto
  have "reload w s0 = run_steps ([?q] @ (drop (Suc k) (query_steps w) @ end_steps w)) s"
    unfolding reload_def split by (rule run_steps_append_ok[OF assms(3)])
  also have "\<dots> = (t, e)"
    using q x by (simp add: run_steps_Cons)
  finally have r: "reload w s0 = ?q s" using q by simp
  show ?thesis
    using r e q for_git_iter_failed[OF assms(2), of "snd (queries w ! k)" s] query_keeps[OF assms(1), of s w]
    by simp
qed

subsection \<open>reload on the examples\<close>

lemmas reload_defs = reload_def run_steps_def reload_steps_def begin_steps_def query_steps_def
  queries_def end_steps_def for_git_iter_def git_iter_def ok_def set_branch_def set_remotediff_def
  git_all_def getBranchStatuses_def git_lines_def strip_def is_space_def files_of_def
  filenames_of_def is_substring_def seed_tracked_def status_entry_def parse_status_line_def
  ignored_def addRow_def numstat_unstaged_def numstat_staged_def add_candidates_def
  add_candidate_def orderBy_def cell_of_int_def mkrun_def gfile_def Let_def
  report_errlines_def cmdstr_def

lemma last_columns:
  "last columns = \<lparr>col_name = ''mtime'', getter = (\<lambda>s r. cell_of_int (mtime (path r)))\<rparr>"
  unfolding columns_def by (simp only: last.simps list.distinct if_False if_True simp_thms)

lemma columns_3:
  "columns ! 3 = \<lparr>col_name = ''staged'', getter = (\<lambda>s r. cell_of (dels (status_of s r)))\<rparr>"
  unfolding columns_def
  by (simp only: nth_Cons_numeral nth_Cons_0 numeral_nat nth_Cons_Suc One_nat_def)

lemma example_reload: "reload example_world empty_sheet = (example_reloaded, None)"
  by (simp add: example_world_def example_reloaded_def empty_sheet_def last_columns reload_defs)

lemma failing_reload:
  "reload failing_world empty_sheet = (failing_after, Some ExpectedException)"
  by (simp add: failing_world_def failing_after_def example_world_def empty_sheet_def last_columns
      reload_defs)

text \<open>The spec's example of the numstat lines, through the whole of \<^verbatim>\<open>reload\<close>.\<close>

lemma numstat_reload:
  "reload numstat_world empty_sheet =
     (\<lparr>rows = [gfile ''foo.txt'' (Some 7)],
       cachedStatus =
         [''foo.txt'' \<mapsto> \<lparr>status = ''MM'', adds = Some ''+3/-1'', dels = Some ''+0/-0''\<rparr>],
       branch = ''main'', remotediff = ''no branch'', reported = []\<rparr>,
      None)"
  by (simp add: numstat_world_def empty_sheet_def last_columns reload_defs)

subsection \<open>A query that fails\<close>

text \<open>With \<^verbatim>\<open>git status\<close> exiting with 128 after its first entry: the reload ends with
  the exception, the candidates \<^verbatim>\<open>a.txt\<close> and \<^verbatim>\<open>b.txt\<close> have no row, and the
  \<^verbatim>\<open>diff-files\<close> query, whose output names \<^verbatim>\<open>gone.txt\<close>, has not run: the record has no
  unstaged delta.\<close>

theorem reload_failed_query_counterexample:
  "exit_code (run_status failing_world) = 128
   \<and> reload failing_world empty_sheet = (failing_after, Some ExpectedException)
   \<and> map filename (rows failing_after) = [''gone.txt'']
   \<and> fst (git_iter (CHR 0x00) (run_diff_files failing_world))
       = [''0'' @ [CHR 0x09] @ ''4'' @ [CHR 0x09] @ ''gone.txt'']
   \<and> cachedStatus failing_after ''gone.txt'' = Some \<lparr>status = '' D'', adds = None, dels = None\<rparr>"
  by (simp add: failing_reload)
     (simp add: failing_world_def failing_after_def example_world_def git_iter_def mkrun_def gfile_def)

theorem reload_stops_at_failed_query_witness:
  "(1::nat) < 4
   \<and> exit_code (fst (queries failing_world ! 1)) = 128
   \<and> run_steps (begin_steps failing_world @ take 1 (query_steps failing_world)) empty_sheet
       = (failing_before, None)
   \<and> reload failing_world empty_sheet = (failing_after, Some ExpectedException)
   \<and> keeps failing_before failing_after"
proof -
  have h1: "(1::nat) < 4" by simp
  have c: "exit_code (fst (queries failing_world ! 1)) = 128"
    by (simp add: queries_def failing_world_def mkrun_def)
  then have h2: "exit_code (fst (queries failing_world ! 1)) \<noteq> 0" by simp
  have h3: "run_steps (begin_steps failing_world @ take 1 (query_steps failing_world)) empty_sheet
       = (failing_before, None)"
    by (simp add: failing_world_def failing_before_def example_world_def empty_sheet_def reload_defs)
  note t = reload_stops_at_failed_query[OF h1 h2 h3]
  have "keeps failing_before (fst (reload failing_world empty_sheet))"
    using t by (rule conjunct2[THEN conjunct2, THEN conjunct2])
  then have k: "keeps failing_before failing_after"
    by (simp only: failing_reload fst_conv)
  show ?thesis using h1 c h3 failing_reload k by (intro conjI)
qed

subsection \<open>The states between the statements of reload\<close>

text \<open>
  Claim C4, amended. \<^verbatim>\<open>reload\<close> swaps nothing in: after the branch and its delta it
  empties the row list of the sheet, then the status map, before the first of the four
  queries runs, and the queries and the last pass then fill both in place. The sheet
  between two statements is what a reader meets: the old rows and records at first, then
  no rows with the old records, then neither.
\<close>

theorem reload_rebuilds_in_place:
  "take 4 (reload_trace w s0) =
     [set_branch w s0,
      set_remotediff w (set_branch w s0),
      (set_remotediff w (set_branch w s0))\<lparr>rows := []\<rparr>,
      (set_remotediff w (set_branch w s0))\<lparr>rows := [], cachedStatus := Map.empty\<rparr>]
   \<and> rows (reload_trace w s0 ! 2) = []
   \<and> cachedStatus (reload_trace w s0 ! 2) = cachedStatus s0"
  by (simp add: reload_trace_def reload_steps_def begin_steps_def ok_def set_remotediff_def
      set_branch_def)

text \<open>
  On a sheet with the row and the record of \<^verbatim>\<open>old.txt\<close>, what a reader sees after each
  statement of the reload. The third state has the new, empty row list beside the old
  record; the sixth to the ninth have a part of the new rows, or all of them in an order
  that is not the final one.
\<close>

theorem reload_trace_counterexample:
  "seen old_sheet = ([''old.txt''], Some ''  '', None)
   \<and> map seen (reload_trace example_world old_sheet)
       = [([''old.txt''], Some ''  '', None),
          ([''old.txt''], Some ''  '', None),
          ([], Some ''  '', None),
          ([], None, None),
          ([], None, Some ''  ''),
          ([''gone.txt''], None, Some ''M ''),
          ([''gone.txt''], None, Some ''M ''),
          ([''gone.txt''], None, Some ''M ''),
          ([''gone.txt'', ''b.txt'', ''a.txt''], None, Some ''M ''),
          ([''a.txt'', ''b.txt'', ''gone.txt''], None, Some ''M '')]"
  by (simp add: reload_trace_def example_world_def old_sheet_def last_columns reload_defs seen_def)

subsection \<open>The order of the rows\<close>

lemma run_steps_snoc_ok:
  assumes "run_steps (fs @ [\<lambda>s. ok (g s)]) s0 = (s, None)"
  shows "\<exists>s'. s = g s'"
proof -
  from run_steps_append_None[OF assms] obtain s' where "run_steps [\<lambda>s. ok (g s)] s' = (s, None)"
    by blast
  then show ?thesis by (auto simp: run_steps_Cons run_steps_Nil ok_def)
qed

lemma sort_desc_sorted:
  "sorted_wrt (\<lambda>r r'. k r' \<le> k r) (rev (sort_key k xs))"
proof -
  have "sorted (map k (sort_key k xs))" by (rule sorted_sort_key)
  then have "sorted_wrt (\<lambda>x y. k x \<le> k y) (sort_key k xs)" by (simp only: sorted_map)
  then show ?thesis by (simp only: sorted_wrt_rev)
qed

text \<open>
  Claim C6, amended. At the end of every reload that no exception has ended, the rows are
  ordered by the last column, descending; the last column is \<^verbatim>\<open>mtime\<close>, the modification
  time of the file, and a file without one comes last.
\<close>

theorem reload_rows_sorted_by_mtime:
  assumes "reload w s0 = (s, None)"
  shows "col_name (last columns) = ''mtime''
         \<and> getter (last columns) s r = cell_of_int (mtime (path r))
         \<and> ordered_desc (last columns) s"
proof -
  have "reload_steps w =
          (begin_steps w @ query_steps w
             @ [\<lambda>s. ok (add_candidates w (filenames_of (files_of w)) s)])
          @ [\<lambda>s. ok (orderBy (last columns) True s)]"
    by (simp add: reload_steps_def end_steps_def)
  with assms have "run_steps ((begin_steps w @ query_steps w
             @ [\<lambda>s. ok (add_candidates w (filenames_of (files_of w)) s)])
          @ [\<lambda>s. ok (orderBy (last columns) True s)]) s0 = (s, None)"
    by (simp only: reload_def)
  then obtain s' where "s = orderBy (last columns) True s'"
    using run_steps_snoc_ok by blast
  then have "rows s = rev (sort_key (\<lambda>r. cell_key (cell_of_int (mtime (path r)))) (rev (rows s')))"
    by (simp add: orderBy_def last_columns)
  then show ?thesis
    using sort_desc_sorted[of "\<lambda>r. cell_key (cell_of_int (mtime (path r)))" "rev (rows s')"]
    by (simp add: last_columns ordered_desc_def)
qed

text \<open>The three rows of the example: modification times 20 and 10, and none for the
  deleted file.\<close>

theorem reload_rows_sorted_by_mtime_witness:
  "reload example_world empty_sheet = (example_reloaded, None)
   \<and> map (getter (last columns) example_reloaded) (rows example_reloaded)
       = [CInt 20, CInt 10, CNone]
   \<and> ordered_desc (last columns) example_reloaded"
proof -
  note t = reload_rows_sorted_by_mtime[OF example_reload]
  have a: "ordered_desc (last columns) example_reloaded"
    using t by (rule conjunct2[THEN conjunct2])
  have b: "map (getter (last columns) example_reloaded) (rows example_reloaded)
             = [CInt 20, CInt 10, CNone]"
    by (simp add: last_columns) (simp add: example_reloaded_def gfile_def cell_of_int_def)
  show ?thesis using example_reload a b by (intro conjI)
qed

text \<open>
  The claim as stated fails there: the column \<^verbatim>\<open>staged\<close> is the fourth, not the last, and
  its values down the rows are \<^verbatim>\<open>+1/-0\<close>, \<^verbatim>\<open>+5/-0\<close> and none, which is not descending.
\<close>

theorem reload_order_counterexample:
  "reload example_world empty_sheet = (example_reloaded, None)
   \<and> col_name (columns ! 3) = ''staged''
   \<and> map (getter (columns ! 3) example_reloaded) (rows example_reloaded)
       = [CStr ''+1/-0'', CStr ''+5/-0'', CNone]
   \<and> \<not> ordered_desc (columns ! 3) example_reloaded"
  by (simp add: example_reload columns_3 ordered_desc_def)
     (simp add: example_reloaded_def status_of_def cell_of_def gfile_def)

subsection \<open>The rows for a path that only the status query reports\<close>











lemma add_candidate_cache: "cachedStatus (add_candidate w item s) = cachedStatus s"
  by (simp add: add_candidate_def addRow_def)












subsection \<open>getBranchStatuses on single lines\<close>

lemmas branch_defs = getBranchStatuses_def git_lines_def branch_status_line_def
  branch_status_rx_def track_rx_def branch_delta_def is_space_def mkrun_def

text \<open>The lines of the spec's examples, and a branch that is only ahead.\<close>

lemma getBranchStatuses_examples:
  "fst (getBranchStatuses
     (mkrun [''for-each-ref'', ''refs/heads''] [''main origin/main [ahead 2, behind 1]'' @ [CHR 0x0A]] 0))
   = [''main'' \<mapsto> ''+2/-1'']
   \<and> fst (getBranchStatuses (mkrun [''for-each-ref'', ''refs/heads''] [''main'' @ [CHR 0x0A]] 0))
   = [''main'' \<mapsto> []]
   \<and> fst (getBranchStatuses (mkrun [''for-each-ref'', ''refs/heads''] [''main origin/main [ahead 2]'' @ [CHR 0x0A]] 0))
   = [''main'' \<mapsto> ''+2'']
   \<and> fst (getBranchStatuses (mkrun [''for-each-ref'', ''refs/heads''] [''main  '' @ [CHR 0x0A]] 0))
   = [''main'' \<mapsto> []]"
  by (simp add: branch_defs)

text \<open>
  Claim C1, where the code departs from it. For a branch that is only behind its upstream
  git writes \<^verbatim>\<open>main origin/main [behind 1]\<close>. The pattern of lines 295-300 wants
  \<^verbatim>\<open>ahead\<close> after the bracket, so the bracket group does not take part in the match,
  \<^verbatim>\<open>nbehind\<close> is \<^verbatim>\<open>None\<close>, and \<^verbatim>\<open>main\<close> is mapped to the empty string, not to \<^verbatim>\<open>-1\<close>.
  Nothing is reported.
\<close>

theorem getBranchStatuses_behind_only:
  "getBranchStatuses
     (mkrun [''for-each-ref'', ''refs/heads''] [''main origin/main [behind 1]'' @ [CHR 0x0A]] 0)
   = ([''main'' \<mapsto> []], [])"
  by (simp add: branch_defs)

end
